theory Spec2Isabelle
  imports Main
begin

section \<open>C strings in the line buffer\<close>

text \<open>
  The shell keeps each input line in one heap buffer. \<open>strtok_r\<close> (in \<open>msh_loop\<close>)
  and \<open>strtok\<close> (in \<open>msh_split_line\<close>) cut that buffer up in place by writing NUL
  bytes into it, and every token is a pointer into it. The buffer is a list of bytes, a
  pointer is an offset into the list, and the C string at a pointer is the run of bytes
  from there up to the first NUL. The buffer built by \<open>msh_read_line\<close> always ends
  with a NUL, so no scan leaves it.
\<close>

abbreviation NUL :: char where
  "NUL \<equiv> CHR 0x00"

abbreviation NL :: char where
  "NL \<equiv> CHR 0x0A"

definition c_str :: "char list \<Rightarrow> nat \<Rightarrow> string" where
  "c_str buf p = takeWhile (\<lambda>c. c \<noteq> NUL) (drop p buf)"

text \<open>\<open>strspn(s, accept)\<close> and \<open>strcspn(s, reject)\<close> of the C library.\<close>

definition strspn :: "char list \<Rightarrow> nat \<Rightarrow> string \<Rightarrow> nat" where
  "strspn buf s accept = length (takeWhile (\<lambda>c. c \<in> set accept) (c_str buf s))"

definition strcspn :: "char list \<Rightarrow> nat \<Rightarrow> string \<Rightarrow> nat" where
  "strcspn buf s reject = length (takeWhile (\<lambda>c. c \<notin> set reject) (c_str buf s))"

text \<open>
  \<open>strtok_r(s, delim, &save)\<close> as the GNU C library implements it, for a call whose
  scan starts at offset \<open>s\<close> (the first argument, or the saved pointer when the first
  argument is NULL): skip the leading delimiters; at the end of the string return NULL;
  else find the end of the token, terminate it with a NUL when a delimiter follows, and
  save where the next scan starts. The result is the token (NULL is \<open>None\<close>), the
  saved pointer and the buffer.
\<close>

definition strtok_r :: "char list \<Rightarrow> nat \<Rightarrow> string \<Rightarrow> nat option \<times> nat \<times> char list" where
  "strtok_r buf s delim =
     (let s1 = s + strspn buf s delim in
      if c_str buf s1 = [] then (None, s1, buf)
      else
        let e = s1 + strcspn buf s1 delim in
        if c_str buf e = [] then (Some s1, e, buf)
        else (Some s1, e + 1, buf[e := NUL]))"

text \<open>\<open>strchr(s, c) != NULL\<close> for a character \<open>c\<close> other than NUL.\<close>

definition strchr :: "char list \<Rightarrow> nat \<Rightarrow> char \<Rightarrow> bool" where
  "strchr buf s c = (c \<in> set (c_str buf s))"

lemma strtok_r_length: "strtok_r buf s delim = (t, s', buf') \<Longrightarrow> length buf' = length buf"
  by (auto simp: strtok_r_def Let_def split: if_splits)

lemma c_str_nonempty_in_range: "c_str buf p \<noteq> [] \<Longrightarrow> p < length buf"
  by (cases "p < length buf") (auto simp: c_str_def)

lemma strtok_r_advance:
  assumes "strtok_r buf s delim = (Some t, s', buf')"
  shows "s < s' \<and> s < length buf"
proof -
  define s1 where "s1 = s + strspn buf s delim"
  define e where "e = s1 + strcspn buf s1 delim"
  have ne: "c_str buf s1 \<noteq> []"
    using assms by (auto simp: strtok_r_def Let_def s1_def split: if_splits)
  then have "s1 < length buf" by (rule c_str_nonempty_in_range)
  moreover have "s \<le> s1" by (simp add: s1_def)
  moreover have "s1 < s'"
  proof (cases "c_str buf e = []")
    case True
    then have "e \<noteq> s1" using ne by auto
    moreover have "s1 \<le> e" by (simp add: e_def)
    moreover have "s' = e"
      using assms ne True by (auto simp: strtok_r_def Let_def s1_def e_def)
    ultimately show ?thesis by simp
  next
    case False
    then have "s' = e + 1"
      using assms ne by (auto simp: strtok_r_def Let_def s1_def e_def)
    then show ?thesis by (simp add: e_def)
  qed
  ultimately show ?thesis by simp
qed

section \<open>The process and its operating system\<close>

text \<open>
  The model follows one process. Everything the process does to the outside is an event
  of its trace; everything the operating system decides (whether an allocation, a
  \<open>pipe\<close>, an \<open>exec\<close> or a \<open>chdir\<close> fails, what \<open>fork\<close> returns) is read from
  an oracle \<open>os\<close> at the process's clock, which counts the answers taken so far. A claim
  proved for every oracle holds whatever the operating system answers. \<open>fork\<close>
  returning 0 means that the process followed from there on is the child.
  The last two fields say what descriptor 0 delivers once it no longer delivers the bytes
  the shell was started on; \<open>msh_loop\<close> below reads them.
  An \<open>Enter\<close> event marks the entry of a function of the shell with its argument
  vector; it has no counterpart in the source and only makes the routing visible.
\<close>

datatype fd = Pipe_read | Pipe_write | Stdin | Stdout

datatype event =
    Print_stdout string
  | Print_stderr string
  | Perror string
  | Sys_pipe
  | Sys_fork int
  | Sys_close fd
  | Sys_dup2 fd fd
  | Sys_execlp string "string list"
  | Sys_execvp string "string list"
  | Sys_waitpid
  | Sys_chdir string
  | Enter string "string option list"

record world =
  trace :: "event list"
  clock :: nat
  cwd :: string

record os =
  alloc_fails :: "nat \<Rightarrow> bool"
  pipe_fails :: "nat \<Rightarrow> bool"
  fork_result :: "nat \<Rightarrow> int"
  exec_fails :: "nat \<Rightarrow> bool"
  chdir_result :: "nat \<Rightarrow> string \<Rightarrow> string \<Rightarrow> string option"
  getcwd_fails :: "nat \<Rightarrow> bool"
  wait_stops :: "nat \<Rightarrow> nat"
  stdin_moved :: "nat \<Rightarrow> bool"
  stdin_changes :: "(nat \<times> string) list"

definition emit :: "event \<Rightarrow> world \<Rightarrow> world" where
  "emit e w = w\<lparr>trace := trace w @ [e]\<rparr>"

definition emits :: "event list \<Rightarrow> world \<Rightarrow> world" where
  "emits es w = w\<lparr>trace := trace w @ es\<rparr>"

definition tick :: "world \<Rightarrow> world" where
  "tick w = w\<lparr>clock := Suc (clock w)\<rparr>"

text \<open>
  How a call ends: it returns a value (\<open>Ret\<close>), or the process stops inside it
  (\<open>Stop\<close>): by \<open>exit\<close>, by a successful \<open>exec\<close> (the shell's code is gone), or by
  undefined behaviour (a NULL pointer or an overrun buffer given to \<open>strcpy\<close> or
  \<open>strcat\<close>).
\<close>

datatype stop = Exited int | Image_replaced | Undefined_behaviour

datatype 'a result = Stop stop world | Ret 'a world

definition EXIT_SUCCESS :: int where
  "EXIT_SUCCESS = 0"

definition EXIT_FAILURE :: int where
  "EXIT_FAILURE = 1"

section \<open>Reading a line: \<open>msh_read_line\<close>\<close>

definition MSH_RL_BUFSIZE :: nat where
  "MSH_RL_BUFSIZE = 1024"

definition allocation_error :: "world \<Rightarrow> 'a result" where
  "allocation_error w = Stop (Exited EXIT_FAILURE) (emit (Print_stderr (''msh: allocation error'' @ [NL])) w)"

text \<open>
  The \<open>while (1)\<close> loop over \<open>getchar()\<close>; \<open>position\<close> is the length of the bytes
  stored so far. End of input, also in the middle of a line, is \<open>exit(EXIT_SUCCESS)\<close>.
  \<open>stdin\<close> is the list of the bytes that \<open>getchar()\<close> is still to return to the
  process: what is left in the buffer of the stream, and after it what descriptor 0
  delivers.
\<close>

fun read_loop :: "os \<Rightarrow> string \<Rightarrow> char list \<Rightarrow> nat \<Rightarrow> world \<Rightarrow> (char list \<times> string) result" where
  "read_loop os [] buffer bufsize w = Stop (Exited EXIT_SUCCESS) w"
| "read_loop os (c # cs) buffer bufsize w =
     (if c = NL then Ret (buffer @ [NUL], cs) w
      else
        let buffer = buffer @ [c] in
        if length buffer \<ge> bufsize then
          if alloc_fails os (clock w) then allocation_error (tick w)
          else read_loop os cs buffer (bufsize + MSH_RL_BUFSIZE) (tick w)
        else read_loop os cs buffer bufsize w)"

definition msh_read_line :: "os \<Rightarrow> string \<Rightarrow> world \<Rightarrow> (char list \<times> string) result" where
  "msh_read_line os stdin w =
     (if alloc_fails os (clock w) then allocation_error (tick w)
      else read_loop os stdin [] MSH_RL_BUFSIZE (tick w))"

section \<open>The tokenizer: \<open>msh_split_line\<close>\<close>

definition MSH_TOK_BUFSIZE :: nat where
  "MSH_TOK_BUFSIZE = 64"

definition MSH_TOK_DELIM :: string where
  "MSH_TOK_DELIM = [CHR 0x20, CHR 0x09, CHR 0x0D, CHR 0x0A, CHR 0x07]"

text \<open>
  The \<open>while (token != NULL)\<close> loop. \<open>tokens\<close> is the array filled so far
  (\<open>position\<close> is its length), each entry a pointer into the line buffer; \<open>s\<close> is the
  pointer \<open>strtok\<close> saved. When the array is full it is grown by
  \<open>MSH_TOK_BUFSIZE\<close> entries, and a failed \<open>realloc\<close> is fatal. After the loop the
  entry at \<open>position\<close> is set to NULL.
\<close>

function split_loop ::
  "os \<Rightarrow> char list \<Rightarrow> nat \<Rightarrow> nat option list \<Rightarrow> nat \<Rightarrow> world \<Rightarrow> (nat option list \<times> char list) result" where
  "split_loop os buf s tokens bufsize w =
     (case strtok_r buf s MSH_TOK_DELIM of
        (None, s', buf') \<Rightarrow> Ret (tokens @ [None], buf') w
      | (Some token, s', buf') \<Rightarrow>
          let tokens = tokens @ [Some token] in
          if length tokens \<ge> bufsize then
            if alloc_fails os (clock w) then allocation_error (tick w)
            else split_loop os buf' s' tokens (bufsize + MSH_TOK_BUFSIZE) (tick w)
          else split_loop os buf' s' tokens bufsize w)"
  by pat_completeness auto
termination
proof (relation "measure (\<lambda>(os, buf, s, tokens, bufsize, w). length buf - s)")
  show "wf (measure (\<lambda>(os, buf, s, tokens, bufsize, w). length buf - s))" by simp
next
  fix os :: os and buf s tokens bufsize and w :: world and x y s' buf' token tokens'
  assume "(x, y) = strtok_r buf s MSH_TOK_DELIM" "(s', buf') = y" "x = Some token"
  then have st: "strtok_r buf s MSH_TOK_DELIM = (Some token, s', buf')" by simp
  from strtok_r_advance[OF st] strtok_r_length[OF st]
  have "length buf' - s' < length buf - s" by arith
  then show "((os, buf', s', tokens', bufsize + MSH_TOK_BUFSIZE, tick w), os, buf, s, tokens, bufsize, w)
      \<in> measure (\<lambda>(os, buf, s, tokens, bufsize, w). length buf - s)"
    and "((os, buf', s', tokens', bufsize, w), os, buf, s, tokens, bufsize, w)
      \<in> measure (\<lambda>(os, buf, s, tokens, bufsize, w). length buf - s)"
    by simp_all
qed

declare split_loop.simps [simp del]

text \<open>\<open>msh_split_line(line)\<close>: the token array and the buffer as \<open>strtok\<close> left it.\<close>

definition msh_split_line ::
  "os \<Rightarrow> char list \<Rightarrow> nat \<Rightarrow> world \<Rightarrow> (nat option list \<times> char list) result" where
  "msh_split_line os buf line w =
     (if alloc_fails os (clock w) then allocation_error (tick w)
      else split_loop os buf line [] MSH_TOK_BUFSIZE (tick w))"

text \<open>
  The argument vector a callee sees: each pointer read as the C string it points to.
  The callees (\<open>msh_pipe\<close>, \<open>msh_execute\<close>) only read the buffer.
\<close>

definition argv_of :: "char list \<Rightarrow> nat option list \<Rightarrow> string option list" where
  "argv_of buf tokens = map (map_option (c_str buf)) tokens"

section \<open>Argument vectors\<close>

text \<open>
  An argument vector is the array \<open>char **args\<close>: its entries are strings, and the
  entry after the last one is NULL (\<open>None\<close>). \<open>arg_at args i\<close> is \<open>args[i]\<close>. Every
  loop of the source stops at the first NULL, so no read passes the end of the array; an
  index past the end of the list reads as NULL.
\<close>

type_synonym argv = "string option list"

definition arg_at :: "argv \<Rightarrow> nat \<Rightarrow> string option" where
  "arg_at args i = (if i < length args then args ! i else None)"

text \<open>The strings of a vector up to its first NULL: what \<open>execvp\<close> passes on.\<close>

definition argv_strings :: "argv \<Rightarrow> string list" where
  "argv_strings args = map the (takeWhile (\<lambda>a. a \<noteq> None) args)"

section \<open>The builtins\<close>

definition MSH_DIRECT_MAX :: nat where
  "MSH_DIRECT_MAX = 260"

definition builtin_str :: "string list" where
  "builtin_str = [''cd'', ''help'', ''exit'', ''pwd'']"

definition msh_num_builtins :: nat where
  "msh_num_builtins = length builtin_str"

text \<open>\<open>getcwd\<close> fails when the path and its NUL do not fit the 260 bytes of \<open>cwd\<close>.\<close>

definition msh_pwd :: "os \<Rightarrow> argv \<Rightarrow> world \<Rightarrow> int result" where
  "msh_pwd os args w0 =
     (let w = emit (Enter ''msh_pwd'' args) w0 in
      if getcwd_fails os (clock w) \<or> length (cwd w) \<ge> MSH_DIRECT_MAX
      then Ret 1 (emit (Perror ''cwd error'') (tick w))
      else Ret 1 (emit (Print_stdout (''Current working dir: '' @ cwd w @ [NL])) (tick w)))"

text \<open>
  \<open>CHR 0x22\<close> is the double quote: the message of \<open>msh_cd\<close> is
  \<open>msh: expected argument to "cd"\<close> and a newline.
\<close>

definition msh_cd :: "os \<Rightarrow> argv \<Rightarrow> world \<Rightarrow> int result" where
  "msh_cd os args w0 =
     (let w = emit (Enter ''msh_cd'' args) w0 in
      case arg_at args 1 of
        None \<Rightarrow>
          Ret 1 (emit (Print_stderr (''msh: expected argument to '' @ [CHR 0x22] @ ''cd'' @ [CHR 0x22, NL])) w)
      | Some dir \<Rightarrow>
          (case chdir_result os (clock w) (cwd w) dir of
             None \<Rightarrow> Ret 1 (emits [Sys_chdir dir, Perror ''msh''] (tick w))
           | Some d \<Rightarrow> Ret 1 ((emit (Sys_chdir dir) (tick w))\<lparr>cwd := d\<rparr>)))"

definition msh_help :: "os \<Rightarrow> argv \<Rightarrow> world \<Rightarrow> int result" where
  "msh_help os args w0 =
     (let w = emit (Enter ''msh_help'' args) w0 in
      Ret 1 (emits
        ([Print_stdout (''Group 11'' @ [CHR 0x27] @ ''s MSH'' @ [NL]),
          Print_stdout (''Type program names and arguments, and hit enter.'' @ [NL]),
          Print_stdout (''The following are built in:'' @ [NL])]
         @ map (\<lambda>name. Print_stdout (''  '' @ name @ [NL])) builtin_str
         @ [Print_stdout (''Use the man command for information on other programs.'' @ [NL])]) w))"

definition msh_exit :: "os \<Rightarrow> argv \<Rightarrow> world \<Rightarrow> int result" where
  "msh_exit os args w0 = Ret 0 (emit (Enter ''msh_exit'' args) w0)"

definition builtin_func :: "(os \<Rightarrow> argv \<Rightarrow> world \<Rightarrow> int result) list" where
  "builtin_func = [msh_cd, msh_help, msh_exit, msh_pwd]"

section \<open>The external launcher: \<open>msh_launch\<close>\<close>

text \<open>
  In the child a failed \<open>execvp\<close> is reported and the child exits with
  \<open>EXIT_FAILURE\<close>. In the parent the \<open>do ... while\<close> loop calls \<open>waitpid\<close> until the
  child has exited or was killed; \<open>wait_stops\<close> is the number of reports of a stopped
  child that come first. (A child that never terminates blocks \<open>waitpid\<close> for ever;
  the model covers the runs in which every awaited child terminates.)
\<close>

definition msh_launch :: "os \<Rightarrow> argv \<Rightarrow> world \<Rightarrow> int result" where
  "msh_launch os args w0 =
     (let w = emit (Enter ''msh_launch'' args) w0;
          pid = fork_result os (clock w);
          w = emit (Sys_fork pid) (tick w) in
      if pid = 0 then
        (case arg_at args 0 of
           None \<Rightarrow> Stop Undefined_behaviour w
         | Some file \<Rightarrow>
             let w = emit (Sys_execvp file (argv_strings args)) w in
             if exec_fails os (clock w)
             then Stop (Exited EXIT_FAILURE) (emit (Perror ''msh'') (tick w))
             else Stop Image_replaced (tick w))
      else if pid < 0 then Ret 1 (emit (Perror ''msh'') w)
      else Ret 1 (emits (replicate (Suc (wait_stops os (clock w))) Sys_waitpid) (tick w)))"

section \<open>The dispatcher: \<open>msh_execute\<close>\<close>

text \<open>
  The \<open>for\<close> loop over the two tables \<open>builtin_str\<close> and \<open>builtin_func\<close>, entry
  by entry: the first name equal to \<open>args[0]\<close> selects the handler; with no such name
  the vector goes to \<open>msh_launch\<close>.
\<close>

fun execute_loop ::
  "(string \<times> (os \<Rightarrow> argv \<Rightarrow> world \<Rightarrow> int result)) list \<Rightarrow> string \<Rightarrow> os \<Rightarrow> argv \<Rightarrow> world \<Rightarrow> int result" where
  "execute_loop [] a0 os args w = msh_launch os args w"
| "execute_loop ((name, func) # rest) a0 os args w =
     (if a0 = name then func os args w else execute_loop rest a0 os args w)"

definition msh_execute :: "os \<Rightarrow> argv \<Rightarrow> world \<Rightarrow> int result" where
  "msh_execute os args w0 =
     (let w = emit (Enter ''msh_execute'' args) w0 in
      case arg_at args 0 of
        None \<Rightarrow> Ret 1 w
      | Some a0 \<Rightarrow> execute_loop (zip builtin_str builtin_func) a0 os args w)"

section \<open>The pipeline launcher: \<open>msh_pipe\<close>\<close>

text \<open>
  The four locals \<open>inputArgs\<close>, \<open>inputArgsV\<close>, \<open>outputArgs\<close> and \<open>outputArgsV\<close>
  are arrays of 1024 bytes, each initialised to the string of one newline. \<open>strcpy\<close>
  into such an array is undefined (\<open>None\<close>) when the source is NULL or when the string
  and its NUL do not fit; \<open>strcat\<close> likewise when the joined string does not fit.
\<close>

definition MSH_ARGS_SIZE :: nat where
  "MSH_ARGS_SIZE = 1024"

definition strcpy_buf :: "string option \<Rightarrow> string option" where
  "strcpy_buf src =
     (case src of
        None \<Rightarrow> None
      | Some s \<Rightarrow> if length s < MSH_ARGS_SIZE then Some s else None)"

definition strcat_buf :: "string \<Rightarrow> string \<Rightarrow> string option" where
  "strcat_buf dst s = (if length dst + length s < MSH_ARGS_SIZE then Some (dst @ s) else None)"

text \<open>
  The first loop (\<open>for (int i = 1; args[i] != NULL && strcmp(args[i], "|") != 0; i++)\<close>)
  over the entries from \<open>args[1]\<close> on; \<open>v\<close> is \<open>inputArgsV\<close>.
\<close>

fun input_args_loop :: "argv \<Rightarrow> string \<Rightarrow> string option" where
  "input_args_loop [] v = Some v"
| "input_args_loop (None # rest) v = Some v"
| "input_args_loop (Some a # rest) v =
     (if a = ''|'' then Some v
      else if v = [NL] then
        (case strcpy_buf (Some a) of
           None \<Rightarrow> None
         | Some v1 \<Rightarrow> input_args_loop rest v1)
      else
        (case strcat_buf v '' '' of
           None \<Rightarrow> None
         | Some v1 \<Rightarrow>
             (case strcat_buf v1 a of
                None \<Rightarrow> None
              | Some v2 \<Rightarrow> input_args_loop rest v2)))"

text \<open>
  The second loop (\<open>for (int i = 1; args[i] != NULL; i++)\<close>) over the entries from
  \<open>args[1]\<close> on: \<open>pipeLoc\<close> becomes the index of every \<open>"|"\<close> it meets.
\<close>

fun find_pipe :: "argv \<Rightarrow> int \<Rightarrow> int \<Rightarrow> int" where
  "find_pipe [] i pipeLoc = pipeLoc"
| "find_pipe (None # rest) i pipeLoc = pipeLoc"
| "find_pipe (Some a # rest) i pipeLoc = find_pipe rest (i + 1) (if a = ''|'' then i else pipeLoc)"

text \<open>
  The third loop (\<open>for (int i = pipeLoc + 1; args[i] != NULL; i++)\<close>); \<open>v\<close> is
  \<open>outputArgsV\<close>.
\<close>

fun output_args_loop :: "argv \<Rightarrow> string \<Rightarrow> string option" where
  "output_args_loop [] v = Some v"
| "output_args_loop (None # rest) v = Some v"
| "output_args_loop (Some a # rest) v =
     (if v = [NL] then
        (case strcpy_buf (Some a) of
           None \<Rightarrow> None
         | Some v1 \<Rightarrow> output_args_loop rest v1)
      else
        (case strcat_buf v '' '' of
           None \<Rightarrow> None
         | Some v1 \<Rightarrow>
             (case strcat_buf v1 a of
                None \<Rightarrow> None
              | Some v2 \<Rightarrow> output_args_loop rest v2)))"

text \<open>
  Lines 434 to 472 of \<open>msh_pipe\<close>: the values of \<open>inputArgs\<close>, \<open>inputArgsV\<close>,
  \<open>outputArgs\<close> and \<open>outputArgsV\<close> when the process part starts, or \<open>None\<close> when
  one of the copies is undefined.
\<close>

definition pipe_args :: "argv \<Rightarrow> (string \<times> string \<times> string \<times> string) option" where
  "pipe_args args =
     (case strcpy_buf (arg_at args 0) of
        None \<Rightarrow> None
      | Some inputArgs \<Rightarrow>
          (case input_args_loop (drop 1 args) [NL] of
             None \<Rightarrow> None
           | Some inputArgsV \<Rightarrow>
               let pipeLoc = find_pipe (drop 1 args) 1 (- 1) + 1 in
               (case strcpy_buf (arg_at args (nat pipeLoc)) of
                  None \<Rightarrow> None
                | Some outputArgs \<Rightarrow>
                    (case output_args_loop (drop (nat pipeLoc + 1) args) [NL] of
                       None \<Rightarrow> None
                     | Some outputArgsV \<Rightarrow>
                         Some (inputArgs, inputArgsV, outputArgs, outputArgsV)))))"

text \<open>
  \<open>execlp(prog, prog, NULL)\<close> when the extra-argument buffer still holds its initial
  newline, \<open>execlp(prog, prog, extra, NULL)\<close> otherwise. A successful call does not
  return; a failed one returns to the caller.
\<close>

definition exec_argv :: "string \<Rightarrow> string \<Rightarrow> string list" where
  "exec_argv prog extra = (if extra = [NL] then [prog] else [prog, extra])"

definition execlp :: "os \<Rightarrow> string \<Rightarrow> string list \<Rightarrow> world \<Rightarrow> unit result" where
  "execlp os file argv w0 =
     (let w = emit (Sys_execlp file argv) w0 in
      if exec_fails os (clock w) then Ret () (tick w) else Stop Image_replaced (tick w))"

definition msh_pipe :: "os \<Rightarrow> argv \<Rightarrow> world \<Rightarrow> int result" where
  "msh_pipe os args w0 =
     (let w = emit (Enter ''msh_pipe'' args) w0 in
      case pipe_args args of
        None \<Rightarrow> Stop Undefined_behaviour w
      | Some (inputArgs, inputArgsV, outputArgs, outputArgsV) \<Rightarrow>
          if pipe_fails os (clock w)
          then Ret 0 (emits [Sys_pipe, Perror (''Pipe error'' @ [NL])] (tick w))
          else
            let w = emit Sys_pipe (tick w);
                pid1 = fork_result os (clock w);
                w = emit (Sys_fork pid1) (tick w) in
            if pid1 = 0 then
              (case execlp os outputArgs (exec_argv outputArgs outputArgsV)
                      (emits [Sys_close Pipe_write, Sys_dup2 Pipe_read Stdin, Sys_close Pipe_read] w) of
                 Stop st w' \<Rightarrow> Stop st w'
               | Ret u w' \<Rightarrow> Ret 1 w')
            else
              let pid2 = fork_result os (clock w);
                  w = emit (Sys_fork pid2) (tick w) in
              (case (if pid2 = 0
                     then execlp os inputArgs (exec_argv inputArgs inputArgsV)
                            (emits [Sys_close Pipe_read, Sys_dup2 Pipe_write Stdout, Sys_close Pipe_write] w)
                     else Ret () w) of
                 Stop st w' \<Rightarrow> Stop st w'
               | Ret u w' \<Rightarrow>
                   Ret 1 (emits [Sys_close Pipe_write, Sys_close Pipe_read, Sys_waitpid, Sys_waitpid] w')))"

section \<open>The driver: \<open>msh_loop\<close>\<close>

lemma split_loop_length:
  "split_loop os buf s tokens bufsize w = Ret (toks, buf') w' \<Longrightarrow> length buf' = length buf"
proof (induction os buf s tokens bufsize w rule: split_loop.induct)
  case (1 os buf s tokens bufsize w)
  obtain t s1 buf1 where st: "strtok_r buf s MSH_TOK_DELIM = (t, s1, buf1)"
    by (cases "strtok_r buf s MSH_TOK_DELIM") auto
  have len: "length buf1 = length buf" using st by (rule strtok_r_length)
  show ?case
  proof (cases t)
    case None
    then show ?thesis using "1.prems" st len by (simp add: split_loop.simps)
  next
    case (Some token)
    show ?thesis
    proof (cases "length (tokens @ [Some token]) \<ge> bufsize")
      case True
      then show ?thesis
        using "1.prems" "1.IH"(1)[OF st[symmetric] Some refl refl True] st Some len
        by (auto simp: split_loop.simps[of os buf] allocation_error_def split: if_splits)
    next
      case False
      then show ?thesis
        using "1.prems" "1.IH"(2)[OF st[symmetric] Some refl refl False] st Some len
        by (auto simp: split_loop.simps[of os buf] split: if_splits)
    qed
  qed
qed

lemma msh_split_line_length:
  "msh_split_line os buf line w = Ret (toks, buf') w' \<Longrightarrow> length buf' = length buf"
  by (auto simp: msh_split_line_def allocation_error_def split: if_splits dest: split_loop_length)

text \<open>
  The inner loop \<open>while ((token = strtok_r(line, "&", &line)) && status)\<close>. The
  buffer starts at offset 0, which is where \<open>tempLine\<close> points; \<open>line\<close> is the pointer
  \<open>strtok_r\<close> saves. The test for a pipe marker reads the string at \<open>tempLine\<close>, and
  when it finds one the text handed to the tokenizer is the string at \<open>tempLine\<close>.
\<close>

function seg_loop :: "os \<Rightarrow> char list \<Rightarrow> nat \<Rightarrow> int \<Rightarrow> world \<Rightarrow> int result" where
  "seg_loop os buf line status w =
     (case strtok_r buf line ''&'' of
        (None, line', buf') \<Rightarrow> Ret status w
      | (Some token, line', buf') \<Rightarrow>
          if status = 0 then Ret status w
          else
            let flag = strchr buf' 0 (CHR ''|'');
                token = (if flag then 0 else token) in
            (case msh_split_line os buf' token w of
               Stop st w' \<Rightarrow> Stop st w'
             | Ret (tokens, buf'') w' \<Rightarrow>
                 (case (if flag then msh_pipe os (argv_of buf'' tokens) w'
                        else msh_execute os (argv_of buf'' tokens) w') of
                    Stop st w'' \<Rightarrow> Stop st w''
                  | Ret status' w'' \<Rightarrow> seg_loop os buf'' line' status' w'')))"
  by pat_completeness auto
termination
  apply (relation "measure (\<lambda>(os, buf, line, status, w). length buf - line)")
   apply simp
  apply (auto dest!: sym[of "(_, _)" "strtok_r _ _ _"] sym[of "Ret _ _" "msh_split_line _ _ _ _"])
  apply (frule strtok_r_advance, frule strtok_r_length, frule msh_split_line_length, arith)+
  done

declare seg_loop.simps [simp del]

lemma read_loop_shorter:
  "read_loop os stdin buffer bufsize w = Ret (buf, stdin') w' \<Longrightarrow> length stdin' < length stdin"
proof (induction stdin arbitrary: buffer bufsize w)
  case Nil
  then show ?case by simp
next
  case (Cons c cs)
  then show ?case
    by (fastforce simp: Let_def allocation_error_def split: if_splits)
qed

lemma msh_read_line_shorter:
  "msh_read_line os stdin w = Ret (buf, stdin') w' \<Longrightarrow> length stdin' < length stdin"
  by (auto simp: msh_read_line_def allocation_error_def split: if_splits dest: read_loop_shorter)

text \<open>
  What \<open>getchar()\<close> returns can change between two lines, in two ways that the
  source does not see.
  \<^item> The first child of \<open>msh_pipe\<close> makes the read end of the pipe its descriptor 0
    (\<open>dup2(fd[0], STDIN_FILENO)\<close>). If its \<open>exec\<close> fails and it returns into the loop,
    \<open>getchar()\<close> returns what the stream had buffered before the \<open>fork\<close> and then
    the bytes of the pipe. \<open>reads_pipe\<close> counts these calls in the trace of the process.
  \<^item> Descriptor 0 shares its file offset with the children. On a seekable standard input
    a child that ends by \<open>exit\<close> can move the offset back, and the shell then reads
    bytes again after those it has buffered. The oracle says when (\<open>stdin_moved\<close>).

  In both cases the bytes to come are \<open>take k stdin @ bytes\<close>: \<open>k\<close> bytes of those
  still unread (the buffered ones), then the bytes descriptor 0 delivers from now on. The
  oracle lists the pairs \<open>(k, bytes)\<close> in the order in which they apply
  (\<open>stdin_changes\<close>); when the list is used up a pipe delivers nothing, and a moved
  offset changes nothing. On a terminal that no child reads nothing of this happens:
  \<open>stdin_moved\<close> is false, no pipe becomes descriptor 0, and \<open>stdin\<close> is read to its
  end.
\<close>

definition reads_pipe :: "world \<Rightarrow> nat" where
  "reads_pipe w = length (filter (\<lambda>e. e = Sys_dup2 Pipe_read Stdin) (trace w))"

text \<open>
  The outer \<open>do ... while (status)\<close> loop; \<open>changes\<close> are the changes of standard
  input still to come. The loop ends when \<open>status\<close> is 0; at the end of the input
  \<open>msh_read_line\<close> ends the process.
\<close>

function msh_loop_from ::
  "os \<Rightarrow> (nat \<times> string) list \<Rightarrow> int \<Rightarrow> string \<Rightarrow> world \<Rightarrow> unit result" where
  "msh_loop_from os changes status stdin w0 =
     (let w = emit (Print_stdout ''$ '') w0 in
      case msh_read_line os stdin w of
        Stop st w' \<Rightarrow> Stop st w'
      | Ret (buf, stdin') w' \<Rightarrow>
          (case seg_loop os buf 0 status w' of
             Stop st w'' \<Rightarrow> Stop st w''
           | Ret status' w'' \<Rightarrow>
               if status' \<noteq> 0 then
                 if reads_pipe w' < reads_pipe w'' \<or> stdin_moved os (clock w'') then
                   (case changes of
                      [] \<Rightarrow>
                        msh_loop_from os [] status'
                          (if reads_pipe w' < reads_pipe w'' then [] else stdin') w''
                    | (k, bytes) # changes' \<Rightarrow>
                        msh_loop_from os changes' status' (take k stdin' @ bytes) w'')
                 else msh_loop_from os changes status' stdin' w''
               else Ret () w''))"
  by pat_completeness auto
termination
proof (relation "measures [\<lambda>(os, changes, status, stdin, w). length changes,
                           \<lambda>(os, changes, status, stdin, w). length stdin]")
  show "wf (measures [\<lambda>(os, changes, status, stdin, w). length changes,
                      \<lambda>(os, changes, status, stdin, w). length (stdin :: string)]
            :: ((os \<times> (nat \<times> string) list \<times> int \<times> string \<times> world) \<times> _) set)"
    by simp
qed (auto dest!: sym[of "Ret _ _" "msh_read_line _ _ _"] dest: msh_read_line_shorter)

declare msh_loop_from.simps [simp del]

text \<open>
  \<open>msh_loop\<close>. \<open>status\<close> is a local that the source never initialises; its value
  at the first test is a parameter of the model.
\<close>

definition msh_loop :: "os \<Rightarrow> int \<Rightarrow> string \<Rightarrow> world \<Rightarrow> unit result" where
  "msh_loop os status stdin w0 = msh_loop_from os (stdin_changes os) status stdin w0"

text \<open>\<open>main\<close>: run the loop, then return \<open>EXIT_SUCCESS\<close>.\<close>

definition main :: "os \<Rightarrow> int \<Rightarrow> string \<Rightarrow> world \<Rightarrow> stop \<times> world" where
  "main os status stdin w =
     (case msh_loop os status stdin w of
        Stop st w' \<Rightarrow> (st, w')
      | Ret u w' \<Rightarrow> (Exited EXIT_SUCCESS, w'))"

section \<open>Concrete runs\<close>

text \<open>
  Oracles and a starting world for the runs evaluated below. \<open>os_parent\<close>: nothing
  fails, every \<open>fork\<close> returns the child's pid 100, so the process followed is the
  shell itself, and its standard input is not moved. \<open>os_child\<close>: every
  \<open>fork\<close> returns 0, so the process followed is the
  first child forked. \<open>os_second_child\<close>: the \<open>fork\<close> asked at clock 2 returns 0,
  every other one 100; in a call of \<open>msh_pipe\<close> at clock 0 that is the second
  \<open>fork\<close>. In the \<open>exec_fails\<close> variants every \<open>exec\<close> fails, and in
  \<open>os_pipe_fails\<close> every \<open>pipe\<close>.
\<close>

definition os_parent :: os where
  "os_parent =
     \<lparr>alloc_fails = (\<lambda>k. False), pipe_fails = (\<lambda>k. False), fork_result = (\<lambda>k. 100),
      exec_fails = (\<lambda>k. False), chdir_result = (\<lambda>k cur dir. Some dir),
      getcwd_fails = (\<lambda>k. False), wait_stops = (\<lambda>k. 0),
      stdin_moved = (\<lambda>k. False), stdin_changes = []\<rparr>"

definition os_child :: os where
  "os_child = os_parent\<lparr>fork_result := (\<lambda>k. 0)\<rparr>"

definition os_second_child :: os where
  "os_second_child = os_parent\<lparr>fork_result := (\<lambda>k. if k = 2 then 0 else 100)\<rparr>"

definition os_child_exec_fails :: os where
  "os_child_exec_fails = os_child\<lparr>exec_fails := (\<lambda>k. True)\<rparr>"

definition os_second_child_exec_fails :: os where
  "os_second_child_exec_fails = os_second_child\<lparr>exec_fails := (\<lambda>k. True)\<rparr>"

definition os_pipe_fails :: os where
  "os_pipe_fails = os_parent\<lparr>pipe_fails := (\<lambda>k. True)\<rparr>"

definition world0 :: world where
  "world0 = \<lparr>trace = [], clock = 0, cwd = ''/''\<rparr>"

section \<open>What the specification says of the tokenizer\<close>

text \<open>
  The definitions of this section follow the words of the specification, not the source.
  A delimiter is a space, tab, carriage return, newline or bell. \<open>tokenizes s ts\<close>
  says that \<open>ts\<close> is the ordered sequence of the maximal substrings of \<open>s\<close> without
  delimiters: after the delimiters that lead \<open>s\<close> comes the first token, which is not
  empty, holds no delimiter and is followed by a delimiter or by the end of \<open>s\<close>; the
  rest of \<open>s\<close> holds the other tokens in the same way; and where no token is left only
  delimiters are.
\<close>

definition blank :: "char \<Rightarrow> bool" where
  "blank c = (c = CHR '' '' \<or> c = CHR 0x09 \<or> c = CHR 0x0D \<or> c = CHR 0x0A \<or> c = CHR 0x07)"

fun tokenizes :: "string \<Rightarrow> string list \<Rightarrow> bool" where
  "tokenizes s [] = list_all blank s"
| "tokenizes s (t # ts) =
     (let r = dropWhile blank s; r' = drop (length t) r in
      t \<noteq> [] \<and> list_all (\<lambda>c. \<not> blank c) t \<and> take (length t) r = t \<and>
      (r' = [] \<or> blank (hd r')) \<and> tokenizes r' ts)"


section \<open>What the specification says of the two sides of a pipeline\<close>

text \<open>
  Also from the words of the specification. \<open>join_args\<close> is the space-separated join
  of a list of tokens. A command is a program name with at most one extra argument, the
  join of the remaining tokens (\<open>command_of\<close>). \<open>before_last_marker\<close> and
  \<open>after_last_marker\<close> are the tokens before and after the last pipe marker.
\<close>

fun join_args :: "string list \<Rightarrow> string" where
  "join_args [] = []"
| "join_args [a] = a"
| "join_args (a # b # rest) = a @ '' '' @ join_args (b # rest)"

definition command_of :: "string list \<Rightarrow> string list" where
  "command_of ts = hd ts # (if tl ts = [] then [] else [join_args (tl ts)])"

definition after_last_marker :: "string list \<Rightarrow> string list" where
  "after_last_marker ts = rev (takeWhile (\<lambda>t. t \<noteq> ''|'') (rev ts))"

definition before_last_marker :: "string list \<Rightarrow> string list" where
  "before_last_marker ts = rev (tl (dropWhile (\<lambda>t. t \<noteq> ''|'') (rev ts)))"

section \<open>The \<open>cd\<close> builtin without an argument\<close>

text \<open>
  C9. When \<open>args[1]\<close> is NULL, \<open>msh_cd\<close> writes the usage message
  \<open>msh: expected argument to "cd"\<close> and a newline to standard error and returns 1
  (continue). The world it returns differs from the one it was called in by the trace
  alone: the working directory is the same, no answer of the operating system was taken,
  and the trace gained the entry mark and the message, so no \<open>chdir\<close> call was made.
\<close>

theorem msh_cd_no_argument:
  assumes "arg_at args 1 = None"
  shows "msh_cd os args w =
           Ret 1 (w\<lparr>trace := trace w @
                    [Enter ''msh_cd'' args,
                     Print_stderr (''msh: expected argument to '' @ [CHR 0x22] @ ''cd'' @ [CHR 0x22, NL])]\<rparr>)"
  using assms by (simp add: msh_cd_def emit_def)

theorem msh_cd_no_argument_witness:
  "arg_at [Some ''cd'', None] 1 = None \<and>
   msh_cd os_parent [Some ''cd'', None] world0 =
     Ret 1
       \<lparr>trace =
          [Enter ''msh_cd'' [Some ''cd'', None],
           Print_stderr (''msh: expected argument to '' @ [CHR 0x22] @ ''cd'' @ [CHR 0x22, NL])],
        clock = 0, cwd = ''/''\<rparr>"
proof -
  have h: "arg_at [Some ''cd'', None] 1 = None" by (simp add: arg_at_def)
  show ?thesis
    using h msh_cd_no_argument[OF h, of os_parent world0] by (simp add: world0_def)
qed

section \<open>The tokenizer returns the tokens of the line\<close>




















lemma tokenizes_unique:
  "tokenizes s ts \<Longrightarrow> tokenizes s ts' \<Longrightarrow> ts = ts'"
proof (induction ts arbitrary: s ts')
  case Nil
  show ?case
  proof (cases ts')
    case Nil
    then show ?thesis by simp
  next
    case (Cons t' ts1')
    have d: "dropWhile blank s = []" using Nil.prems(1) by (simp add: list_all_iff)
    have "tokenizes s (t' # ts1')" using Nil.prems(2) Cons by simp
    then have "take (length t') (dropWhile blank s) = t' \<and> t' \<noteq> []" by (simp add: Let_def)
    then show ?thesis unfolding d by auto
  qed
next
  case (Cons t ts1)
  define r where "r = dropWhile blank s"
  have t: "t \<noteq> []" "list_all (\<lambda>c. \<not> blank c) t" "take (length t) r = t"
    "drop (length t) r = [] \<or> blank (hd (drop (length t) r))"
    "tokenizes (drop (length t) r) ts1"
    using Cons.prems(1) by (simp_all add: Let_def r_def)
  show ?case
  proof (cases ts')
    case Nil
    then have "r = []" using Cons.prems(2) by (simp add: list_all_iff r_def)
    then show ?thesis using t by simp
  next
    case ts': (Cons t' ts1')
    have t': "t' \<noteq> []" "list_all (\<lambda>c. \<not> blank c) t'" "take (length t') r = t'"
      "drop (length t') r = [] \<or> blank (hd (drop (length t') r))"
      "tokenizes (drop (length t') r) ts1'"
      using Cons.prems(2) ts' by (simp_all add: Let_def r_def)
    have shorter: "\<not> length a < length b"
      if a: "take (length a) r = a" "drop (length a) r = [] \<or> blank (hd (drop (length a) r))"
        and b: "take (length b) r = b" "list_all (\<lambda>c. \<not> blank c) b" for a b
    proof
      assume lt: "length a < length b"
      have "min (length b) (length r) = length b"
        using arg_cong[OF b(1), of length] by simp
      then have lb: "length b \<le> length r" by simp
      then have ne: "drop (length a) r \<noteq> []" using lt by simp
      then have "hd (drop (length a) r) = r ! length a" using lt lb by (simp add: hd_drop_conv_nth)
      also have "\<dots> = b ! length a" using b(1) lt by (metis nth_take)
      finally have "hd (drop (length a) r) \<in> set b" using lt by simp
      then have "\<not> blank (hd (drop (length a) r))" using b(2) by (simp add: list_all_iff)
      then show False using a(2) ne by simp
    qed
    have "length t = length t'"
      using shorter[OF t(3) t(4) t'(3) t'(2)] shorter[OF t'(3) t'(4) t(3) t(2)] by simp
    then have tt: "t = t'" using t(3) t'(3) by metis
    then have "ts1 = ts1'" using Cons.IH[OF t(5)] t'(5) by (simp only:)
    then show ?thesis using tt ts' by simp
  qed
qed



section \<open>How \<open>msh_pipe\<close> assembles the two commands\<close>

lemma join_args_Cons: "join_args (a # xs) = a @ concat (map (\<lambda>b. '' '' @ b) xs)"
  by (induction xs arbitrary: a) simp_all

lemma tokenizes_no_blank:
  "tokenizes s ts \<Longrightarrow> t \<in> set ts \<Longrightarrow> t \<noteq> [] \<and> list_all (\<lambda>c. \<not> blank c) t"
proof (induction ts arbitrary: s)
  case Nil
  then show ?case by simp
next
  case (Cons a ts)
  then show ?case by (auto simp: Let_def)
qed

lemma tokenizes_no_newline: "tokenizes s ts \<Longrightarrow> [NL] \<notin> set ts"
  using tokenizes_no_blank[of s ts "[NL]"] by (auto simp: blank_def)

lemma args_loop_started:
  assumes "v \<noteq> [NL]"
    and "length (v @ concat (map (\<lambda>b. '' '' @ b) xs)) < MSH_ARGS_SIZE"
  shows "output_args_loop (map Some xs @ None # rest) v = Some (v @ concat (map (\<lambda>b. '' '' @ b) xs))"
  using assms
proof (induction xs arbitrary: v)
  case Nil
  then show ?case by simp
next
  case (Cons a xs)
  have "v @ '' '' @ a \<noteq> [NL]" by (cases v) auto
  moreover have "length ((v @ '' '' @ a) @ concat (map (\<lambda>b. '' '' @ b) xs)) < MSH_ARGS_SIZE"
    using Cons.prems(2) by simp
  ultimately have "output_args_loop (map Some xs @ None # rest) (v @ '' '' @ a)
      = Some ((v @ '' '' @ a) @ concat (map (\<lambda>b. '' '' @ b) xs))"
    by (rule Cons.IH)
  then show ?case using Cons.prems by (simp add: strcat_buf_def)
qed

lemma output_args_loop_join:
  assumes "[NL] \<notin> set xs" and "length (join_args xs) < MSH_ARGS_SIZE"
  shows "output_args_loop (map Some xs @ None # rest) [NL]
         = Some (if xs = [] then [NL] else join_args xs)"
proof (cases xs)
  case Nil
  then show ?thesis by simp
next
  case (Cons a ys)
  have a: "a \<noteq> [NL]" using assms(1) Cons by auto
  have len: "length (a @ concat (map (\<lambda>b. '' '' @ b) ys)) < MSH_ARGS_SIZE"
    using assms(2) Cons by (simp add: join_args_Cons)
  then have "length a < MSH_ARGS_SIZE" by simp
  then show ?thesis
    using args_loop_started[OF a len, of rest] Cons
    by (simp add: strcpy_buf_def join_args_Cons)
qed

lemma input_loop_started:
  assumes "v \<noteq> [NL]" and "''|'' \<notin> set xs"
    and "length (v @ concat (map (\<lambda>b. '' '' @ b) xs)) < MSH_ARGS_SIZE"
  shows "input_args_loop (map Some xs @ Some ''|'' # rest) v = Some (v @ concat (map (\<lambda>b. '' '' @ b) xs))"
  using assms
proof (induction xs arbitrary: v)
  case Nil
  then show ?case by simp
next
  case (Cons a xs)
  have "v @ '' '' @ a \<noteq> [NL]" by (cases v) auto
  moreover have "''|'' \<notin> set xs" using Cons.prems(2) by simp
  moreover have "length ((v @ '' '' @ a) @ concat (map (\<lambda>b. '' '' @ b) xs)) < MSH_ARGS_SIZE"
    using Cons.prems(3) by simp
  ultimately have "input_args_loop (map Some xs @ Some ''|'' # rest) (v @ '' '' @ a)
      = Some ((v @ '' '' @ a) @ concat (map (\<lambda>b. '' '' @ b) xs))"
    by (rule Cons.IH)
  then show ?case using Cons.prems by (auto simp: strcat_buf_def)
qed

lemma input_args_loop_join:
  assumes "[NL] \<notin> set xs" and "''|'' \<notin> set xs" and "length (join_args xs) < MSH_ARGS_SIZE"
  shows "input_args_loop (map Some xs @ Some ''|'' # rest) [NL]
         = Some (if xs = [] then [NL] else join_args xs)"
proof (cases xs)
  case Nil
  then show ?thesis by simp
next
  case (Cons a ys)
  have a: "a \<noteq> [NL]" "a \<noteq> ''|''" "''|'' \<notin> set ys" using assms(1,2) Cons by auto
  have len: "length (a @ concat (map (\<lambda>b. '' '' @ b) ys)) < MSH_ARGS_SIZE"
    using assms(3) Cons by (simp add: join_args_Cons)
  then have "length a < MSH_ARGS_SIZE" by simp
  then show ?thesis
    using input_loop_started[OF a(1) a(3) len, of rest] Cons a(2)
    by (simp add: strcpy_buf_def join_args_Cons)
qed

lemma find_pipe_no_marker:
  "''|'' \<notin> set xs \<Longrightarrow> find_pipe (map Some xs @ None # rest) i pipeLoc = pipeLoc"
  by (induction xs arbitrary: i) auto

lemma find_pipe_last:
  "''|'' \<notin> set tail \<Longrightarrow>
   find_pipe (map Some (front @ ''|'' # tail) @ None # rest) i pipeLoc = i + int (length front)"
proof (induction front arbitrary: i pipeLoc)
  case Nil
  then show ?case by (simp add: find_pipe_no_marker)
next
  case (Cons f front)
  then show ?case by simp
qed

lemma pipe_args_partition:
  assumes first: "toks = p # pre @ ''|'' # mid" "''|'' \<notin> set pre"
    and last: "toks = front @ ''|'' # c # post" "''|'' \<notin> set (c # post)"
    and nl: "[NL] \<notin> set toks"
    and fits: "length p < MSH_ARGS_SIZE" "length (join_args pre) < MSH_ARGS_SIZE"
      "length c < MSH_ARGS_SIZE" "length (join_args post) < MSH_ARGS_SIZE"
  shows "pipe_args (map Some toks @ [None]) =
           Some (p, (if pre = [] then [NL] else join_args pre),
                 c, (if post = [] then [NL] else join_args post))"
proof -
  let ?args = "map Some toks @ [None]"
  have a0: "arg_at ?args 0 = Some p" by (simp add: arg_at_def first(1))
  have d1: "drop 1 ?args = map Some pre @ Some ''|'' # (map Some mid @ [None])"
    by (simp add: first(1))
  have "[NL] \<notin> set pre" using nl first(1) by auto
  then have inl: "input_args_loop (drop 1 ?args) [NL] = Some (if pre = [] then [NL] else join_args pre)"
    unfolding d1 using first(2) fits(2) by (rule input_args_loop_join)
  have "front \<noteq> []"
  proof
    assume "front = []"
    then have "pre @ ''|'' # mid = c # post" using first(1) last(1) by simp
    then have "''|'' \<in> set (c # post)" by (metis in_set_conv_decomp)
    then show False using last(2) by simp
  qed
  then obtain f front' where front: "front = f # front'" by (cases front) auto
  have d1': "drop 1 ?args = map Some (front' @ ''|'' # c # post) @ None # []"
    by (simp add: last(1) front)
  have fp: "find_pipe (drop 1 ?args) 1 (- 1) = 1 + int (length front')"
    unfolding d1' using last(2) by (rule find_pipe_last)
  have loc: "nat (find_pipe (drop 1 ?args) 1 (- 1) + 1) = Suc (length front)"
    using fp by (simp add: front)
  have ac: "arg_at ?args (Suc (length front)) = Some c"
    by (simp add: arg_at_def last(1) nth_append)
  have dp: "drop (Suc (length front) + 1) ?args = map Some post @ None # []"
    by (simp add: last(1))
  have "[NL] \<notin> set post" using nl last(1) by auto
  then have outl: "output_args_loop (drop (Suc (length front) + 1) ?args) [NL]
      = Some (if post = [] then [NL] else join_args post)"
    unfolding dp using fits(4) by (rule output_args_loop_join)
  show ?thesis
    unfolding pipe_args_def Let_def loc
    by (simp only: a0 inl ac outl strcpy_buf_def fits option.case if_True)
qed


lemma join_args_not_newline:
  assumes "[NL] \<notin> set xs" "xs \<noteq> []"
  shows "join_args xs \<noteq> [NL]"
proof (cases xs)
  case Nil
  then show ?thesis using assms by simp
next
  case (Cons a ys)
  show ?thesis
  proof (cases ys)
    case Nil
    then show ?thesis using assms Cons by auto
  next
    case ys: (Cons b zs)
    have "CHR '' '' \<in> set (join_args xs)" unfolding Cons ys by simp
    then show ?thesis by auto
  qed
qed

lemma exec_argv_command_of:
  assumes "[NL] \<notin> set xs"
  shows "exec_argv prog (if xs = [] then [NL] else join_args xs) = command_of (prog # xs)"
  using join_args_not_newline[OF assms] by (simp add: exec_argv_def command_of_def)

text \<open>
  C4, as amended. Let the tokens of a pipeline segment have a pipe marker after the first
  token and a token after the last marker, and let the program names and the joined
  arguments fit the 1024-byte buffers. Then the consumer command is taken from the tokens
  after the last marker (\<open>c # post\<close>), and the producer command from the first token
  and the tokens between it and the first marker (\<open>p # pre\<close>); the tokens between the
  first and the last marker belong to neither command.
\<close>

theorem pipe_args_first_and_last_marker:
  assumes "tokenizes s toks"
    and "toks = p # pre @ ''|'' # mid" "''|'' \<notin> set pre"
    and "toks = front @ ''|'' # c # post" "''|'' \<notin> set (c # post)"
    and "length p < MSH_ARGS_SIZE" "length (join_args pre) < MSH_ARGS_SIZE"
    and "length c < MSH_ARGS_SIZE" "length (join_args post) < MSH_ARGS_SIZE"
  shows "\<exists>inputArgs inputArgsV outputArgs outputArgsV.
           pipe_args (map Some toks @ [None]) = Some (inputArgs, inputArgsV, outputArgs, outputArgsV) \<and>
           exec_argv inputArgs inputArgsV = command_of (p # pre) \<and>
           exec_argv outputArgs outputArgsV = command_of (c # post)"
proof -
  have nl: "[NL] \<notin> set toks" using assms(1) by (rule tokenizes_no_newline)
  have "[NL] \<notin> set pre" using nl assms(2) by auto
  moreover have "[NL] \<notin> set post" using nl assms(4) by auto
  ultimately show ?thesis
    using pipe_args_partition[OF assms(2-5) nl assms(6-9)]
    by (simp add: exec_argv_command_of)
qed

theorem pipe_args_first_and_last_marker_witness:
  "tokenizes ''a x | b | c'' [''a'', ''x'', ''|'', ''b'', ''|'', ''c''] \<and>
   pipe_args (map Some [''a'', ''x'', ''|'', ''b'', ''|'', ''c''] @ [None]) = Some (''a'', ''x'', ''c'', [NL]) \<and>
   exec_argv ''a'' ''x'' = command_of [''a'', ''x''] \<and>
   exec_argv ''c'' [NL] = command_of [''c'']"
proof -
  have tk: "tokenizes ''a x | b | c'' [''a'', ''x'', ''|'', ''b'', ''|'', ''c'']"
    by code_simp
  have h1: "[''a'', ''x'', ''|'', ''b'', ''|'', ''c''] = ''a'' # [''x''] @ ''|'' # [''b'', ''|'', ''c'']"
    by simp
  have h2: "''|'' \<notin> set [''x'']" by simp
  have h3: "[''a'', ''x'', ''|'', ''b'', ''|'', ''c''] = [''a'', ''x'', ''|'', ''b''] @ ''|'' # ''c'' # []"
    by simp
  have h4: "''|'' \<notin> set (''c'' # [])" by simp
  have ev: "pipe_args (map Some [''a'', ''x'', ''|'', ''b'', ''|'', ''c''] @ [None]) = Some (''a'', ''x'', ''c'', [NL])"
    by code_simp
  from pipe_args_first_and_last_marker[OF tk h1 h2 h3 h4]
  have "\<exists>inputArgs inputArgsV outputArgs outputArgsV.
      pipe_args (map Some [''a'', ''x'', ''|'', ''b'', ''|'', ''c''] @ [None])
        = Some (inputArgs, inputArgsV, outputArgs, outputArgsV) \<and>
      exec_argv inputArgs inputArgsV = command_of (''a'' # [''x'']) \<and>
      exec_argv outputArgs outputArgsV = command_of (''c'' # [])"
    by (simp add: MSH_ARGS_SIZE_def)
  then have ex: "exec_argv ''a'' ''x'' = command_of [''a'', ''x''] \<and> exec_argv ''c'' [NL] = command_of [''c'']"
    unfolding ev by simp
  show ?thesis by (intro conjI tk ev ex[THEN conjunct1] ex[THEN conjunct2])
qed

text \<open>
  C4 as stated fails for \<open>a x | b | c\<close>. The consumer is \<open>c\<close>, the tokens after
  the last marker, as the claim says; but the producer is run as \<open>a\<close> with the extra
  argument \<open>x\<close>, the tokens before the first marker, and not as \<open>a\<close> with the
  extra argument \<open>x | b\<close>, the tokens before the last marker.
\<close>

theorem pipe_args_two_markers_counterexample:
  "pipe_args (map Some [''a'', ''x'', ''|'', ''b'', ''|'', ''c''] @ [None])
     = Some (''a'', ''x'', ''c'', [NL]) \<and>
   exec_argv ''c'' [NL] = command_of (after_last_marker [''a'', ''x'', ''|'', ''b'', ''|'', ''c'']) \<and>
   exec_argv ''a'' ''x'' = [''a'', ''x''] \<and>
   command_of (before_last_marker [''a'', ''x'', ''|'', ''b'', ''|'', ''c'']) = [''a'', ''x | b''] \<and>
   exec_argv ''a'' ''x'' \<noteq> command_of (before_last_marker [''a'', ''x'', ''|'', ''b'', ''|'', ''c''])"
  by code_simp

section \<open>How \<open>msh_pipe\<close> runs the two commands\<close>

text \<open>
  Where no copy overruns a buffer \<open>msh_pipe\<close> runs the two sides as follows. Let the
  tokens of a pipeline segment have a pipe marker after the first token and a token after
  the last marker, let the program names and the joined arguments be shorter than the
  1024 bytes of their buffers, and let the \<open>pipe\<close> call succeed. Then the first child,
  if its \<open>exec\<close> succeeds, becomes the consumer: the token after the last marker, with
  at most one extra argument, the space-separated join of the tokens after it. The second
  child, if its \<open>exec\<close> succeeds, becomes the producer: the first token, with at most
  one extra argument, the join of the tokens between it and the first marker. A side
  without remaining tokens gets no extra argument (\<open>command_of\<close>).
\<close>

lemma msh_pipe_sides_executed:
  assumes "tokenizes s toks"
    and "toks = p # pre @ ''|'' # mid" "''|'' \<notin> set pre"
    and "toks = front @ ''|'' # c # post" "''|'' \<notin> set (c # post)"
    and "length p < MSH_ARGS_SIZE" "length (join_args pre) < MSH_ARGS_SIZE"
    and "length c < MSH_ARGS_SIZE" "length (join_args post) < MSH_ARGS_SIZE"
    and "\<not> pipe_fails os (clock w)"
  shows "(fork_result os (clock w + 1) = 0 \<and> \<not> exec_fails os (clock w + 2) \<longrightarrow>
          msh_pipe os (map Some toks @ [None]) w =
            Stop Image_replaced
              (w\<lparr>trace := trace w @
                   [Enter ''msh_pipe'' (map Some toks @ [None]), Sys_pipe, Sys_fork 0,
                    Sys_close Pipe_write, Sys_dup2 Pipe_read Stdin, Sys_close Pipe_read,
                    Sys_execlp c (command_of (c # post))],
                 clock := clock w + 3\<rparr>)) \<and>
         (fork_result os (clock w + 1) \<noteq> 0 \<and> fork_result os (clock w + 2) = 0 \<and>
          \<not> exec_fails os (clock w + 3) \<longrightarrow>
          msh_pipe os (map Some toks @ [None]) w =
            Stop Image_replaced
              (w\<lparr>trace := trace w @
                   [Enter ''msh_pipe'' (map Some toks @ [None]), Sys_pipe,
                    Sys_fork (fork_result os (clock w + 1)), Sys_fork 0,
                    Sys_close Pipe_read, Sys_dup2 Pipe_write Stdout, Sys_close Pipe_write,
                    Sys_execlp p (command_of (p # pre))],
                 clock := clock w + 4\<rparr>))"
proof -
  have nl: "[NL] \<notin> set toks" using assms(1) by (rule tokenizes_no_newline)
  have "[NL] \<notin> set pre" using nl assms(2) by auto
  then have ep: "exec_argv p (if pre = [] then [NL] else join_args pre) = command_of (p # pre)"
    by (rule exec_argv_command_of)
  have "[NL] \<notin> set post" using nl assms(4) by auto
  then have ec: "exec_argv c (if post = [] then [NL] else join_args post) = command_of (c # post)"
    by (rule exec_argv_command_of)
  note pa = pipe_args_partition[OF assms(2-5) nl assms(6-9)]
  show ?thesis
    unfolding msh_pipe_def pa
    using assms(10)
    by (simp add: ep ec Let_def execlp_def emit_def emits_def tick_def eval_nat_numeral)
qed

lemma msh_pipe_sides_executed_example:
  "tokenizes ''ls -l /tmp | grep -i main'' [''ls'', ''-l'', ''/tmp'', ''|'', ''grep'', ''-i'', ''main''] \<and>
   \<not> pipe_fails os_child (clock world0) \<and>
   fork_result os_child (clock world0 + 1) = 0 \<and>
   \<not> exec_fails os_child (clock world0 + 2) \<and>
   msh_pipe os_child (map Some [''ls'', ''-l'', ''/tmp'', ''|'', ''grep'', ''-i'', ''main''] @ [None]) world0 =
     Stop Image_replaced
       \<lparr>trace =
          [Enter ''msh_pipe'' (map Some [''ls'', ''-l'', ''/tmp'', ''|'', ''grep'', ''-i'', ''main''] @ [None]),
           Sys_pipe, Sys_fork 0, Sys_close Pipe_write, Sys_dup2 Pipe_read Stdin,
           Sys_close Pipe_read, Sys_execlp ''grep'' [''grep'', ''-i main'']],
        clock = 3, cwd = ''/''\<rparr> \<and>
   fork_result os_second_child (clock world0 + 1) \<noteq> 0 \<and>
   fork_result os_second_child (clock world0 + 2) = 0 \<and>
   \<not> exec_fails os_second_child (clock world0 + 3) \<and>
   msh_pipe os_second_child (map Some [''ls'', ''-l'', ''/tmp'', ''|'', ''grep'', ''-i'', ''main''] @ [None]) world0 =
     Stop Image_replaced
       \<lparr>trace =
          [Enter ''msh_pipe'' (map Some [''ls'', ''-l'', ''/tmp'', ''|'', ''grep'', ''-i'', ''main''] @ [None]),
           Sys_pipe, Sys_fork 100, Sys_fork 0, Sys_close Pipe_read, Sys_dup2 Pipe_write Stdout,
           Sys_close Pipe_write, Sys_execlp ''ls'' [''ls'', ''-l /tmp'']],
        clock = 4, cwd = ''/''\<rparr>"
proof -
  let ?toks = "[''ls'', ''-l'', ''/tmp'', ''|'', ''grep'', ''-i'', ''main'']"
  have tk: "tokenizes ''ls -l /tmp | grep -i main'' ?toks"
    by code_simp
  have h1: "?toks = ''ls'' # [''-l'', ''/tmp''] @ ''|'' # [''grep'', ''-i'', ''main'']" by simp
  have h2: "''|'' \<notin> set [''-l'', ''/tmp'']" by simp
  have h3: "?toks = [''ls'', ''-l'', ''/tmp''] @ ''|'' # ''grep'' # [''-i'', ''main'']" by simp
  have h4: "''|'' \<notin> set (''grep'' # [''-i'', ''main''])" by simp
  have f1: "length ''ls'' < MSH_ARGS_SIZE" and f2: "length (join_args [''-l'', ''/tmp'']) < MSH_ARGS_SIZE"
    and f3: "length ''grep'' < MSH_ARGS_SIZE" and f4: "length (join_args [''-i'', ''main'']) < MSH_ARGS_SIZE"
    by (simp_all add: MSH_ARGS_SIZE_def)
  have o1: "\<not> pipe_fails os_child (clock world0)"
    and o2: "fork_result os_child (clock world0 + 1) = 0"
    and o3: "\<not> exec_fails os_child (clock world0 + 2)"
    by (simp_all add: os_child_def os_parent_def)
  have p1: "\<not> pipe_fails os_second_child (clock world0)"
    and p2: "fork_result os_second_child (clock world0 + 1) \<noteq> 0"
    and p3: "fork_result os_second_child (clock world0 + 2) = 0"
    and p4: "\<not> exec_fails os_second_child (clock world0 + 3)"
    and p5: "fork_result os_second_child (clock world0 + 1) = 100"
    by (simp_all add: os_second_child_def os_parent_def world0_def)
  have cmd_c: "command_of (''grep'' # [''-i'', ''main'']) = [''grep'', ''-i main'']"
    and cmd_p: "command_of (''ls'' # [''-l'', ''/tmp'']) = [''ls'', ''-l /tmp'']"
    by (simp_all add: command_of_def)
  have w: "\<And>es k. world0\<lparr>trace := trace world0 @ es, clock := clock world0 + k\<rparr> =
        \<lparr>trace = es, clock = k, cwd = ''/''\<rparr>"
    by (simp add: world0_def)
  from msh_pipe_sides_executed[OF tk h1 h2 h3 h4 f1 f2 f3 f4 o1, THEN conjunct1] o2 o3
  have consumer: "msh_pipe os_child (map Some ?toks @ [None]) world0 =
     Stop Image_replaced
       \<lparr>trace =
          [Enter ''msh_pipe'' (map Some ?toks @ [None]),
           Sys_pipe, Sys_fork 0, Sys_close Pipe_write, Sys_dup2 Pipe_read Stdin,
           Sys_close Pipe_read, Sys_execlp ''grep'' [''grep'', ''-i main'']],
        clock = 3, cwd = ''/''\<rparr>"
    unfolding cmd_c w by blast
  from msh_pipe_sides_executed[OF tk h1 h2 h3 h4 f1 f2 f3 f4 p1, THEN conjunct2] p2 p3 p4
  have producer: "msh_pipe os_second_child (map Some ?toks @ [None]) world0 =
     Stop Image_replaced
       \<lparr>trace =
          [Enter ''msh_pipe'' (map Some ?toks @ [None]),
           Sys_pipe, Sys_fork 100, Sys_fork 0, Sys_close Pipe_read, Sys_dup2 Pipe_write Stdout,
           Sys_close Pipe_write, Sys_execlp ''ls'' [''ls'', ''-l /tmp'']],
        clock = 4, cwd = ''/''\<rparr>"
    unfolding cmd_p w p5 by blast
  show ?thesis by (intro conjI tk o1 o2 o3 consumer p2 p3 p4 producer)
qed

text \<open>
  C5. The claim: each side of a pipeline segment is executed as its first token plus at
  most one extra argument, the join of its remaining tokens. The code builds the names
  and the joined arguments with \<open>strcpy\<close> and \<open>strcat\<close> in arrays of 1024 bytes
  and never looks at a length. For a segment whose producer name has 1024 characters the
  name and its NUL do not fit \<open>inputArgs\<close>: the \<open>strcpy\<close> of line 434 writes past
  the array, the behaviour is undefined, and the second child does not reach the
  \<open>exec\<close> of the producer that the claim describes. \<open>msh_read_line\<close> and
  \<open>msh_split_line\<close> grow their buffers where they are full; \<open>msh_pipe\<close> does not.
\<close>

theorem msh_pipe_long_name_overruns:
  "msh_pipe os_second_child (map Some [replicate 1024 (CHR ''a''), ''|'', ''wc''] @ [None]) world0 =
     Stop Undefined_behaviour
       (emit (Enter ''msh_pipe'' (map Some [replicate 1024 (CHR ''a''), ''|'', ''wc''] @ [None])) world0) \<and>
   msh_pipe os_second_child (map Some [replicate 1024 (CHR ''a''), ''|'', ''wc''] @ [None]) world0 \<noteq>
     Stop Image_replaced
       (world0\<lparr>trace := trace world0 @
            [Enter ''msh_pipe'' (map Some [replicate 1024 (CHR ''a''), ''|'', ''wc''] @ [None]), Sys_pipe,
             Sys_fork (fork_result os_second_child (clock world0 + 1)), Sys_fork 0,
             Sys_close Pipe_read, Sys_dup2 Pipe_write Stdout, Sys_close Pipe_write,
             Sys_execlp (replicate 1024 (CHR ''a'')) (command_of [replicate 1024 (CHR ''a'')])],
          clock := clock world0 + 4\<rparr>)"
proof -
  have "pipe_args (map Some [replicate 1024 (CHR ''a''), ''|'', ''wc''] @ [None]) = None"
    by (simp add: pipe_args_def arg_at_def strcpy_buf_def MSH_ARGS_SIZE_def)
  then show ?thesis by (simp add: msh_pipe_def)
qed

section \<open>Runs of the shell\<close>

text \<open>The definitions of the model, for the simplifier to unfold in a concrete run.\<close>

lemmas model_defs = strtok_r_def strspn_def strcspn_def c_str_def strchr_def
  msh_read_line_def MSH_RL_BUFSIZE_def
  msh_split_line_def split_loop.simps allocation_error_def MSH_TOK_DELIM_def MSH_TOK_BUFSIZE_def
  argv_of_def arg_at_def argv_strings_def msh_execute_def msh_launch_def builtin_str_def builtin_func_def
  msh_cd_def msh_pwd_def msh_help_def msh_exit_def msh_pipe_def pipe_args_def strcpy_buf_def strcat_buf_def
  MSH_ARGS_SIZE_def exec_argv_def execlp_def emit_def emits_def tick_def 
  MSH_DIRECT_MAX_def EXIT_SUCCESS_def EXIT_FAILURE_def Let_def seg_loop.simps msh_loop_def
  msh_loop_from.simps reads_pipe_def

lemma seg_loop_status_0: "seg_loop os buf line 0 w = Ret 0 w"
  by (simp add: seg_loop.simps[of os buf line 0] split: prod.splits option.splits)

lemma msh_execute_exit:
  "msh_execute os [Some ''exit'', None] w =
     Ret 0 (emits [Enter ''msh_execute'' [Some ''exit'', None], Enter ''msh_exit'' [Some ''exit'', None]] w)"
  by (simp add: msh_execute_def arg_at_def builtin_str_def builtin_func_def msh_exit_def emit_def emits_def)

text \<open>
  A run in which \<open>exit\<close> is reached by the dispatcher: the segment after it and the
  next line are not executed.
\<close>

lemma msh_loop_exit_example:
  "msh_loop os_parent 1 (''pwd & exit & pwd'' @ [NL] @ ''pwd'' @ [NL]) world0 =
     Ret ()
       \<lparr>trace =
          [Print_stdout ''$ '', Enter ''msh_execute'' [Some ''pwd'', None],
           Enter ''msh_pwd'' [Some ''pwd'', None],
           Print_stdout (''Current working dir: /'' @ [NL]),
           Enter ''msh_execute'' [Some ''exit'', None],
           Enter ''msh_exit'' [Some ''exit'', None]],
        clock = 4, cwd = ''/''\<rparr>"
  by (simp add: model_defs os_parent_def world0_def)

text \<open>No call of \<open>msh_pipe\<close> ends the process by \<open>exit\<close>.\<close>

lemma msh_pipe_no_exit: "msh_pipe os args w \<noteq> Stop (Exited n) w'"
  by (auto simp: msh_pipe_def execlp_def Let_def split: option.splits prod.splits if_splits result.splits)

text \<open>
  C1. The claim: a child of \<open>msh_pipe\<close> whose \<open>exec\<close> fails reports the error,
  exits with failure status and never returns into the loop. The code: neither child
  tests the result of \<open>execlp\<close>; after a failed call the first child leaves the
  \<open>if\<close> and returns 1, the second closes the pipe ends, calls \<open>waitpid\<close> twice and
  returns 1, both to their caller \<open>msh_loop\<close> and both without a report: the first
  child of \<open>ls | nosuch\<close> and the second child of \<open>nosuch | wc\<close> return 1
  (continue). Whatever the operating system answers, no call of \<open>msh_pipe\<close> ends the
  process by \<open>exit\<close>. The sibling \<open>msh_launch\<close> does report and exit in this case.
\<close>

theorem msh_pipe_exec_failure_returns:
  "msh_pipe os args w \<noteq> Stop (Exited n) w' \<and>
   msh_pipe os_child_exec_fails [Some ''ls'', Some ''|'', Some ''nosuch'', None] world0 =
     Ret 1
       \<lparr>trace =
          [Enter ''msh_pipe'' [Some ''ls'', Some ''|'', Some ''nosuch'', None],
           Sys_pipe, Sys_fork 0, Sys_close Pipe_write, Sys_dup2 Pipe_read Stdin,
           Sys_close Pipe_read, Sys_execlp ''nosuch'' [''nosuch'']],
        clock = 3, cwd = ''/''\<rparr> \<and>
   msh_pipe os_second_child_exec_fails [Some ''nosuch'', Some ''|'', Some ''wc'', None] world0 =
     Ret 1
       \<lparr>trace =
          [Enter ''msh_pipe'' [Some ''nosuch'', Some ''|'', Some ''wc'', None],
           Sys_pipe, Sys_fork 100, Sys_fork 0, Sys_close Pipe_read,
           Sys_dup2 Pipe_write Stdout, Sys_close Pipe_write,
           Sys_execlp ''nosuch'' [''nosuch''], Sys_close Pipe_write,
           Sys_close Pipe_read, Sys_waitpid, Sys_waitpid],
        clock = 4, cwd = ''/''\<rparr>"
proof (rule conjI)
  show "msh_pipe os args w \<noteq> Stop (Exited n) w'"
    by (rule msh_pipe_no_exit)
qed (simp add: model_defs os_child_exec_fails_def os_second_child_exec_fails_def
    os_child_def os_second_child_def os_parent_def world0_def)

text \<open>
  C2. The claim: when \<open>pipe\<close> fails, \<open>msh_pipe\<close> reports the error, forks nothing
  and returns "continue". The code reports and forks nothing, but it returns 0, the
  terminate signal, against the comment above the function ("Always returns 1, to
  continue execution"): for the line \<open>ls | wc\<close> the loop ends, and the next line
  \<open>pwd\<close> is never read.
\<close>

theorem msh_pipe_pipe_failure_returns_0:
  "msh_pipe os_pipe_fails [Some ''ls'', Some ''|'', Some ''wc'', None] world0 =
     Ret 0
       \<lparr>trace =
          [Enter ''msh_pipe'' [Some ''ls'', Some ''|'', Some ''wc'', None],
           Sys_pipe, Perror (''Pipe error'' @ [NL])],
        clock = 1, cwd = ''/''\<rparr> \<and>
   msh_loop os_pipe_fails 1 (''ls | wc'' @ [NL] @ ''pwd'' @ [NL]) world0 =
     Ret ()
       \<lparr>trace =
          [Print_stdout ''$ '',
           Enter ''msh_pipe'' [Some ''ls'', Some ''|'', Some ''wc'', None],
           Sys_pipe, Perror (''Pipe error'' @ [NL])],
        clock = 3, cwd = ''/''\<rparr>"
  by (simp add: model_defs os_pipe_fails_def os_parent_def world0_def)

text \<open>
  C6. The claim: a pipeline segment without a locatable partition is reported, and the
  shell goes on. The code has no such check. For \<open>ls |\<close> no token follows the marker,
  \<open>args[pipeLoc]\<close> is the NULL sentinel and the \<open>strcpy\<close> of line 460 reads through
  it: the behaviour is undefined and nothing is reported. For \<open>a|b\<close>, a segment with no
  marker among its tokens, \<open>pipeLoc\<close> ends as 0, both sides are the token \<open>a|b\<close>,
  and nothing is reported either.
\<close>

theorem msh_pipe_malformed_segment:
  "msh_pipe os_parent [Some ''ls'', Some ''|'', None] world0 =
     Stop Undefined_behaviour
       \<lparr>trace = [Enter ''msh_pipe'' [Some ''ls'', Some ''|'', None]], clock = 0, cwd = ''/''\<rparr> \<and>
   msh_loop os_parent 1 (''ls |'' @ [NL] @ ''pwd'' @ [NL]) world0 =
     Stop Undefined_behaviour
       \<lparr>trace = [Print_stdout ''$ '', Enter ''msh_pipe'' [Some ''ls'', Some ''|'', None]],
        clock = 2, cwd = ''/''\<rparr> \<and>
   msh_pipe os_parent [Some ''a|b'', None] world0 =
     Ret 1
       \<lparr>trace =
          [Enter ''msh_pipe'' [Some ''a|b'', None], Sys_pipe, Sys_fork 100,
           Sys_fork 100, Sys_close Pipe_write, Sys_close Pipe_read, Sys_waitpid,
           Sys_waitpid],
        clock = 3, cwd = ''/''\<rparr>"
  by (simp add: model_defs os_parent_def world0_def)

text \<open>
  C3. The claim: a segment is routed to \<open>msh_pipe\<close> exactly when its own text holds
  a pipe marker, and by nothing but its own text. The code tests the string at
  \<open>tempLine\<close>, the start of the line buffer, for every segment. In
  \<open>ls & cat f | wc\<close> the second segment holds a marker, but the string at the start of
  the buffer is \<open>ls\<close>, so the segment goes to \<open>msh_execute\<close> and on to
  \<open>msh_launch\<close> with the marker among its arguments. In \<open>a|b & pwd\<close> the second
  segment holds no marker, but the string at the start of the buffer is \<open>a|b\<close>, so
  \<open>msh_pipe\<close> runs a second time on the first segment's text and \<open>pwd\<close> is never run.
\<close>

theorem msh_loop_routing_reads_line_start:
  "msh_loop os_parent 1 (''ls & cat f | wc'' @ [NL]) world0 =
     Stop (Exited EXIT_SUCCESS)
       \<lparr>trace =
          [Print_stdout ''$ '', Enter ''msh_execute'' [Some ''ls'', None],
           Enter ''msh_launch'' [Some ''ls'', None], Sys_fork 100, Sys_waitpid,
           Enter ''msh_execute'' [Some ''cat'', Some ''f'', Some ''|'', Some ''wc'', None],
           Enter ''msh_launch'' [Some ''cat'', Some ''f'', Some ''|'', Some ''wc'', None],
           Sys_fork 100, Sys_waitpid, Print_stdout ''$ ''],
        clock = 8, cwd = ''/''\<rparr> \<and>
   msh_loop os_parent 1 (''a|b & pwd'' @ [NL]) world0 =
     Stop (Exited EXIT_SUCCESS)
       \<lparr>trace =
          [Print_stdout ''$ '', Enter ''msh_pipe'' [Some ''a|b'', None],
           Sys_pipe, Sys_fork 100, Sys_fork 100, Sys_close Pipe_write,
           Sys_close Pipe_read, Sys_waitpid, Sys_waitpid,
           Enter ''msh_pipe'' [Some ''a|b'', None], Sys_pipe, Sys_fork 100,
           Sys_fork 100, Sys_close Pipe_write, Sys_close Pipe_read, Sys_waitpid,
           Sys_waitpid, Print_stdout ''$ ''],
        clock = 10, cwd = ''/''\<rparr>"
  by (simp add: model_defs os_parent_def world0_def)

text \<open>
  C7. The claim: a segment that is the sole token \<open>exit\<close> stops the loop. By the
  defect of C3 the segment \<open>exit\<close> of the line \<open>a|b & exit\<close> never reaches
  \<open>msh_exit\<close>: \<open>msh_pipe\<close> runs again on \<open>a|b\<close>, the status stays 1, and the
  loop goes on to the next line. (Where the segment does reach \<open>msh_execute\<close> the loop
  stops: \<open>msh_execute_exit\<close>, \<open>seg_loop_status_0\<close>, \<open>msh_loop_exit_example\<close>.)
\<close>

theorem msh_loop_exit_after_pipe_segment:
  "msh_loop os_parent 1 (''a|b & exit'' @ [NL] @ ''pwd'' @ [NL]) world0 =
     Stop (Exited EXIT_SUCCESS)
       \<lparr>trace =
          [Print_stdout ''$ '', Enter ''msh_pipe'' [Some ''a|b'', None],
           Sys_pipe, Sys_fork 100, Sys_fork 100, Sys_close Pipe_write,
           Sys_close Pipe_read, Sys_waitpid, Sys_waitpid,
           Enter ''msh_pipe'' [Some ''a|b'', None], Sys_pipe, Sys_fork 100,
           Sys_fork 100, Sys_close Pipe_write, Sys_close Pipe_read, Sys_waitpid,
           Sys_waitpid, Print_stdout ''$ '',
           Enter ''msh_execute'' [Some ''pwd'', None],
           Enter ''msh_pwd'' [Some ''pwd'', None],
           Print_stdout (''Current working dir: /'' @ [NL]),
           Print_stdout ''$ ''],
        clock = 13, cwd = ''/''\<rparr>"
  by (simp add: model_defs os_parent_def world0_def)

section \<open>The first test of \<open>status\<close>\<close>

text \<open>
  C10. \<open>msh_loop\<close> tests \<open>status\<close> in the condition of the inner loop before any
  assignment to it; the model takes the value found there as a parameter. If it is 0, then
  whatever the input is no segment is executed: the loop prints the prompt, reads one
  line and returns. If it is not 0 the first segment is executed: for the input
  \<open>pwd\<close> the value 0 gives the prompt alone and the value 1 gives the output of
  \<open>pwd\<close>. So the input does not determine whether the first segment runs.
\<close>

theorem msh_loop_uninitialised_status:
  "msh_loop os 0 stdin w =
     (case msh_read_line os stdin (emit (Print_stdout ''$ '') w) of
        Stop st w' \<Rightarrow> Stop st w'
      | Ret r w' \<Rightarrow> Ret () w') \<and>
   msh_loop os_parent 0 (''pwd'' @ [NL]) world0 =
     Ret () \<lparr>trace = [Print_stdout ''$ ''], clock = 1, cwd = ''/''\<rparr> \<and>
   msh_loop os_parent 1 (''pwd'' @ [NL]) world0 =
     Stop (Exited EXIT_SUCCESS)
       \<lparr>trace =
          [Print_stdout ''$ '', Enter ''msh_execute'' [Some ''pwd'', None],
           Enter ''msh_pwd'' [Some ''pwd'', None],
           Print_stdout (''Current working dir: /'' @ [NL]), Print_stdout ''$ ''],
        clock = 4, cwd = ''/''\<rparr>"
proof (intro conjI)
  show "msh_loop os 0 stdin w =
     (case msh_read_line os stdin (emit (Print_stdout ''$ '') w) of
        Stop st w' \<Rightarrow> Stop st w'
      | Ret r w' \<Rightarrow> Ret () w')"
    by (simp add: msh_loop_def msh_loop_from.simps[of os _ 0] seg_loop_status_0
        split: result.splits prod.splits)
  show "msh_loop os_parent 0 (''pwd'' @ [NL]) world0 =
     Ret () \<lparr>trace = [Print_stdout ''$ ''], clock = 1, cwd = ''/''\<rparr>"
    by (simp add: model_defs os_parent_def world0_def)
  show "msh_loop os_parent 1 (''pwd'' @ [NL]) world0 =
     Stop (Exited EXIT_SUCCESS)
       \<lparr>trace =
          [Print_stdout ''$ '', Enter ''msh_execute'' [Some ''pwd'', None],
           Enter ''msh_pwd'' [Some ''pwd'', None],
           Print_stdout (''Current working dir: /'' @ [NL]), Print_stdout ''$ ''],
        clock = 4, cwd = ''/''\<rparr>"
    by (simp add: model_defs os_parent_def world0_def)
qed

end
